theory Spec2Isabelle
  imports Complex_Main
begin

section \<open>Exceptions\<close>

text \<open>
  An operation that can raise gives a sum: \<open>Inl\<close> the exception, \<open>Inr\<close> the value
  returned. The exceptions are those of the class \<open>Exception\<close> that the modelled code
  can meet.
\<close>

datatype py_exception =
  APIError | IndexError | AttributeError | RuntimeError | OtherException


section \<open>Strings as Python sees them\<close>

text \<open>
  A Python \<open>str\<close> is modelled as a \<open>string\<close>, one \<open>char\<close> per code point; the
  character classes are those of the code points below 256. \<open>isspace\<close> is the set that
  \<open>str.strip()\<close> removes and that \<open>\s\<close> matches in a \<open>str\<close> pattern; \<open>isdigit\<close> is what
  \<open>\d\<close> matches.
\<close>

definition isspace :: "char \<Rightarrow> bool" where
  "isspace c \<longleftrightarrow> c \<in> set [CHR 0x09, CHR 0x0A, CHR 0x0B, CHR 0x0C, CHR 0x0D,
                          CHR 0x1C, CHR 0x1D, CHR 0x1E, CHR 0x1F, CHR 0x20,
                          CHR 0x85, CHR 0xA0]"

definition isdigit :: "char \<Rightarrow> bool" where
  "isdigit c \<longleftrightarrow> c \<in> set ''0123456789''"

text \<open>\<open>s.lstrip()\<close>, \<open>s.rstrip()\<close> and \<open>s.strip()\<close>.\<close>

definition lstrip :: "string \<Rightarrow> string" where
  "lstrip s = dropWhile isspace s"

definition rstrip :: "string \<Rightarrow> string" where
  "rstrip s = rev (dropWhile isspace (rev s))"

definition strip :: "string \<Rightarrow> string" where
  "strip s = rstrip (lstrip s)"

text \<open>\<open>s.strip(chars)\<close>: removes, at both ends, the characters that occur in \<open>chars\<close>.\<close>

definition strip_chars :: "string \<Rightarrow> string \<Rightarrow> string" where
  "strip_chars chars s =
     rev (dropWhile (\<lambda>c. c \<in> set chars) (rev (dropWhile (\<lambda>c. c \<in> set chars) s)))"

text \<open>\<open>sep.join(xs)\<close>.\<close>

fun join :: "string \<Rightarrow> string list \<Rightarrow> string" where
  "join sep [] = []"
| "join sep [x] = x"
| "join sep (x # y # ys) = x @ sep @ join sep (y # ys)"

text \<open>
  \<open>s.split("\n")\<close>: the pieces between the newlines, the empty ones included; the
  empty string gives one empty piece.
\<close>

fun split_nl :: "string \<Rightarrow> string list" where
  "split_nl [] = [[]]"
| "split_nl (c # cs) =
     (if c = CHR 0x0A then [] # split_nl cs
      else (case split_nl cs of
              [] \<Rightarrow> [[c]]
            | l # ls \<Rightarrow> (c # l) # ls))"

text \<open>
  \<open>s.title()\<close> on the ASCII letters: a letter that follows a letter is lowered, any
  other letter is raised; everything else is kept.
\<close>

definition is_lower :: "char \<Rightarrow> bool" where
  "is_lower c \<longleftrightarrow> c \<in> set ''abcdefghijklmnopqrstuvwxyz''"

definition is_upper :: "char \<Rightarrow> bool" where
  "is_upper c \<longleftrightarrow> c \<in> set ''ABCDEFGHIJKLMNOPQRSTUVWXYZ''"

definition to_upper :: "char \<Rightarrow> char" where
  "to_upper c = (if is_lower c then char_of (of_char c - (32::nat)) else c)"

definition to_lower :: "char \<Rightarrow> char" where
  "to_lower c = (if is_upper c then char_of (of_char c + (32::nat)) else c)"

fun title_from :: "bool \<Rightarrow> string \<Rightarrow> string" where
  "title_from previous_is_cased [] = []"
| "title_from previous_is_cased (c # cs) =
     (if previous_is_cased then to_lower c else to_upper c)
       # title_from (is_lower c \<or> is_upper c) cs"

definition title :: "string \<Rightarrow> string" where
  "title s = title_from False s"

text \<open>
  \<open>xs[i:]\<close> for a Python list: a negative start counts from the end, and a start
  outside the list is clamped.
\<close>

definition slice_from :: "int \<Rightarrow> 'a list \<Rightarrow> 'a list" where
  "slice_from i xs =
     (if i < 0 then drop (nat (max 0 (int (length xs) + i))) xs else drop (nat i) xs)"


section \<open>The conversation buffer (context\_manager.py)\<close>

text \<open>
  A \<open>datetime\<close> is an integer count of microseconds, its resolution in Python; the
  clock reading \<open>datetime.now()\<close> is an argument of each operation that takes one.
  The field \<open>text\<close> of the source is \<open>u_text\<close> here.
\<close>

record utterance =
  speaker :: string
  u_text :: string
  timestamp :: int
  is_final :: bool

text \<open>
  \<open>utterances\<close> is the deque, oldest entry first. \<open>max_duration\<close> is in seconds;
  \<open>suggestion_cooldown\<close> is in seconds too, a float in the source and an exact
  rational here.
\<close>

record conversation_buffer =
  utterances :: "utterance list"
  max_duration :: int
  suggestion_cooldown :: rat
  last_suggestion_time :: "int option"
  pending_interim :: "utterance option"

text \<open>
  \<open>__init__\<close>. Its defaults are 180 seconds and a cooldown of 5 seconds, the values
  the assistant passes too.
\<close>

definition new_buffer :: "int \<Rightarrow> rat \<Rightarrow> conversation_buffer" where
  "new_buffer max_duration_seconds cooldown =
     \<lparr> utterances = [], max_duration = max_duration_seconds,
       suggestion_cooldown = cooldown, last_suggestion_time = None,
       pending_interim = None \<rparr>"

text \<open>The loop of \<open>_prune_old\<close>: pop from the left while the oldest entry is too old.\<close>

fun popleft_while_old :: "int \<Rightarrow> utterance list \<Rightarrow> utterance list" where
  "popleft_while_old cutoff [] = []"
| "popleft_while_old cutoff (u # us) =
     (if timestamp u < cutoff then popleft_while_old cutoff us else u # us)"

definition prune_old :: "int \<Rightarrow> conversation_buffer \<Rightarrow> conversation_buffer" where
  "prune_old now b =
     (let cutoff = now - max_duration b * 1000000
      in b\<lparr>utterances := popleft_while_old cutoff (utterances b)\<rparr>)"

text \<open>\<open>add\<close>; \<open>now\<close> is the clock as \<open>_prune_old\<close> reads it.\<close>

definition add :: "utterance \<Rightarrow> int \<Rightarrow> conversation_buffer \<Rightarrow> conversation_buffer" where
  "add u now b =
     (if is_final u
      then prune_old now (b\<lparr>pending_interim := None, utterances := utterances b @ [u]\<rparr>)
      else b\<lparr>pending_interim := Some u\<rparr>)"

text \<open>
  \<open>add_transcript\<close>; \<open>created\<close> is the clock as the default factory of
  \<open>Utterance.timestamp\<close> reads it, \<open>now\<close> the later reading of \<open>_prune_old\<close>.
\<close>

definition add_transcript ::
  "string \<Rightarrow> int \<Rightarrow> bool \<Rightarrow> int \<Rightarrow> int \<Rightarrow> conversation_buffer \<Rightarrow> conversation_buffer" where
  "add_transcript txt spk final created now b =
     (let speaker_label = (if spk = 0 then ''prospect'' else ''salesperson'')
      in add \<lparr> speaker = speaker_label, u_text = strip txt,
               timestamp = created, is_final = final \<rparr> now b)"

text \<open>\<open>get_context_string\<close>; \<open>if last_n:\<close> is false for \<open>None\<close> and for \<open>0\<close>.\<close>

definition context_utterances :: "int option \<Rightarrow> conversation_buffer \<Rightarrow> utterance list" where
  "context_utterances last_n b =
     (let us = filter is_final (utterances b)
      in case last_n of
           None \<Rightarrow> us
         | Some n \<Rightarrow> if n \<noteq> 0 then slice_from (- n) us else us)"

definition render :: "utterance \<Rightarrow> string" where
  "render u = title (speaker u) @ '': '' @ u_text u"

definition get_context_string :: "int option \<Rightarrow> conversation_buffer \<Rightarrow> string" where
  "get_context_string last_n b = join ''\<newline>'' (map render (context_utterances last_n b))"

text \<open>\<open>get_last_prospect_statement\<close>: the scan runs over the reversed deque.\<close>

fun first_prospect :: "utterance list \<Rightarrow> string option" where
  "first_prospect [] = None"
| "first_prospect (u # us) =
     (if speaker u = ''prospect'' \<and> is_final u then Some (u_text u) else first_prospect us)"

definition get_last_prospect_statement :: "conversation_buffer \<Rightarrow> string option" where
  "get_last_prospect_statement b = first_prospect (rev (utterances b))"

text \<open>
  \<open>should_trigger_ai\<close>. \<open>total_seconds()\<close> of the difference of two readings is their
  difference in microseconds over a million. The result is \<open>Inl\<close> should the function
  raise.
\<close>

definition elapsed_seconds :: "int \<Rightarrow> int \<Rightarrow> rat" where
  "elapsed_seconds now t = of_int (now - t) / 1000000"

text \<open>\<open>d[-1]\<close> for a deque: \<open>IndexError\<close> when it is empty.\<close>

definition rightmost :: "'a list \<Rightarrow> py_exception + 'a" where
  "rightmost d = (if d = [] then Inl IndexError else Inr (last d))"

definition should_trigger_ai :: "int \<Rightarrow> conversation_buffer \<Rightarrow> py_exception + bool" where
  "should_trigger_ai now b =
     (if utterances b = [] then Inr False
      else if (case last_suggestion_time b of
                 None \<Rightarrow> False
               | Some t \<Rightarrow> elapsed_seconds now t < suggestion_cooldown b) then Inr False
      else case rightmost (utterances b) of
             Inl e \<Rightarrow> Inl e
           | Inr l \<Rightarrow>
               if speaker l \<noteq> ''prospect'' \<or> \<not> is_final l then Inr False
               else if length (u_text l) < 10 then Inr False
               else Inr True)"

definition mark_suggestion_sent :: "int \<Rightarrow> conversation_buffer \<Rightarrow> conversation_buffer" where
  "mark_suggestion_sent now b = b\<lparr>last_suggestion_time := Some now\<rparr>"

definition clear :: "conversation_buffer \<Rightarrow> conversation_buffer" where
  "clear b = b\<lparr>utterances := [], last_suggestion_time := None, pending_interim := None\<rparr>"


section \<open>The prompt (config.py)\<close>

definition PRODUCT_NAME :: string where
  "PRODUCT_NAME = ''Acme CRM Pro''"

definition PRODUCT_DESCRIPTION :: string where
  "PRODUCT_DESCRIPTION =
     ''Enterprise CRM solution with AI-powered lead scoring,\<newline>'' @
     ''automated follow-ups, and deep analytics integration. Designed for\<newline>'' @
     ''mid-market B2B companies with 50-500 employees.''"

definition PRICING :: "(string \<times> string) list" where
  "PRICING = [(''Starter'', ''$50/user/month''),
              (''Professional'', ''$100/user/month''),
              (''Enterprise'', ''Custom pricing'')]"

definition VALUE_PROPOSITIONS :: "string list" where
  "VALUE_PROPOSITIONS =
     [''Reduces manual data entry by 80%'',
      ''Increases sales team productivity by 35%'',
      ''Integrates with 200+ tools out of the box'',
      ''Implementation in under 2 weeks'',
      ''24/7 customer support included'']"

text \<open>\<open>get_system_prompt\<close>: the template with its six fields filled in.\<close>

definition get_system_prompt :: "string \<Rightarrow> string \<Rightarrow> string" where
  "get_system_prompt conversation_transcript last_statement =
     (let pricing_info = join ''\<newline>'' (map (\<lambda>(tier, price). ''- '' @ tier @ '': '' @ price) PRICING);
          value_props = join ''\<newline>'' (map (\<lambda>v. ''- '' @ v) VALUE_PROPOSITIONS)
      in ''You are a real-time sales assistant helping a salesperson during a live call.\<newline>\<newline>'' @
         ''## Your Role\<newline>'' @
         ''- Provide 2-3 concise response suggestions when the prospect raises objections or asks questions\<newline>'' @
         ''- Keep suggestions brief (1-2 sentences each) so they can be quickly read\<newline>'' @
         ''- Focus on overcoming objections and moving the conversation forward\<newline>'' @
         ''- Match the tone to the conversation (professional but natural)\<newline>\<newline>'' @
         ''## Product/Service Context\<newline>'' @
         ''Product: '' @ PRODUCT_NAME @ ''\<newline>'' @
         PRODUCT_DESCRIPTION @ ''\<newline>\<newline>'' @
         ''Pricing:\<newline>'' @
         pricing_info @ ''\<newline>\<newline>'' @
         ''## Key Value Propositions\<newline>'' @
         value_props @ ''\<newline>\<newline>'' @
         ''## Current Conversation\<newline>'' @
         conversation_transcript @ ''\<newline>\<newline>'' @
         ''## Instructions\<newline>'' @
         ''The prospect just said: '' @ [CHR 0x22] @ last_statement @ [CHR 0x22] @ ''\<newline>\<newline>'' @
         ''Provide 2-3 response options the salesperson could use. Format as:\<newline>'' @
         ''1. [Response option 1]\<newline>'' @
         ''2. [Response option 2]\<newline>'' @
         ''3. [Response option 3 - optional]\<newline>\<newline>'' @
         ''Keep each under 30 words. Focus on the most effective response first.'')"


section \<open>The suggestion generator (llm\_generator.py)\<close>

text \<open>
  \<open>re.match(r"^\s*(\d+)[.\):\-]\s*(.+)$", line)\<close>, giving group 2 of the match.
  The line holds no newline, since it is a piece of \<open>split("\n")\<close>. Spaces and
  digits, and digits and the four marker characters, are disjoint, so the only
  backtracking is between \<open>\s*\<close> and \<open>.+\<close>: when nothing but spaces follows
  the marker, \<open>\s*\<close> gives the last of them back to \<open>.+\<close>.
\<close>

definition match_numbered :: "string \<Rightarrow> string option" where
  "match_numbered line =
     (let after_spaces = dropWhile isspace line;
          digits = takeWhile isdigit after_spaces;
          after_digits = dropWhile isdigit after_spaces
      in if digits = [] then None
         else case after_digits of
                [] \<Rightarrow> None
              | marker # after_marker \<Rightarrow>
                  if marker \<notin> set ''.):-'' then None
                  else let body = dropWhile isspace after_marker
                       in if body \<noteq> [] then Some body
                          else if after_marker \<noteq> [] then Some [last after_marker]
                          else None)"

definition startswith :: "char \<Rightarrow> string \<Rightarrow> bool" where
  "startswith c s = (case s of [] \<Rightarrow> False | x # _ \<Rightarrow> x = c)"

definition endswith :: "char \<Rightarrow> string \<Rightarrow> bool" where
  "endswith c s = (s \<noteq> [] \<and> last s = c)"

text \<open>What the loop of \<open>_parse_suggestions\<close> makes of a matched line's group 2.\<close>

definition clean_suggestion :: "string \<Rightarrow> string" where
  "clean_suggestion group2 =
     (let suggestion = strip group2;
          suggestion = (if (startswith (CHR 0x22) suggestion \<and> endswith (CHR 0x22) suggestion)
                           \<or> (startswith (CHR 0x27) suggestion \<and> endswith (CHR 0x27) suggestion)
                        then butlast (tl suggestion) else suggestion)
      in strip_chars [CHR 0x22, CHR 0x27] suggestion)"

fun parse_lines :: "string list \<Rightarrow> string list" where
  "parse_lines [] = []"
| "parse_lines (l # ls) =
     (let line = strip l
      in if line = [] then parse_lines ls
         else case match_numbered line of
                None \<Rightarrow> parse_lines ls
              | Some group2 \<Rightarrow>
                  (let suggestion = clean_suggestion group2
                   in if suggestion \<noteq> [] \<and> length suggestion > 5
                      then suggestion # parse_lines ls
                      else parse_lines ls))"

definition parse_suggestions :: "string \<Rightarrow> string list" where
  "parse_suggestions response = take 3 (parse_lines (split_nl (strip response)))"

text \<open>
  The collaborator. A call of \<open>messages.create\<close> raises or returns; what it raises
  is an \<open>Exception\<close>, \<open>anthropic.APIError\<close> or another (\<open>OtherException\<close>). \<open>response.content\<close> is a
  list of blocks, of which only a text block has the attribute \<open>text\<close>.
\<close>

datatype content_block = TextBlock string | OtherBlock

type_synonym messages_create = "string \<Rightarrow> py_exception + content_block list"

text \<open>The body of the \<open>try\<close> in \<open>generate_sync\<close>.\<close>

definition request_suggestions :: "messages_create \<Rightarrow> string \<Rightarrow> py_exception + string list" where
  "request_suggestions create system_prompt =
     (case create system_prompt of
        Inl e \<Rightarrow> Inl e
      | Inr content \<Rightarrow>
          (case content of
             [] \<Rightarrow> Inl IndexError
           | block # _ \<Rightarrow>
               (case block of
                  OtherBlock \<Rightarrow> Inl AttributeError
                | TextBlock raw_response \<Rightarrow> Inr (parse_suggestions raw_response))))"

text \<open>\<open>generate_sync\<close>: \<open>Inl\<close> would be an exception that leaves the function.\<close>

definition generate_sync :: "messages_create \<Rightarrow> string \<Rightarrow> string \<Rightarrow> py_exception + string list" where
  "generate_sync create conversation_context last_statement =
     (if last_statement = [] \<or> strip last_statement = [] then Inr []
      else let system_prompt = get_system_prompt conversation_context last_statement
           in case request_suggestions create system_prompt of
                Inr suggestions \<Rightarrow> Inr suggestions
              | Inl APIError \<Rightarrow> Inr []
              | Inl _ \<Rightarrow> Inr [])"


section \<open>The hub (websocket\_server.py)\<close>

datatype message =
    TranscriptMessage string string bool
  | SuggestionsMessage "string list"
  | StatusMessage bool bool bool

text \<open>
  What \<open>client.send(data)\<close> does: it returns, raises \<open>ConnectionClosed\<close>, or raises
  something else. The behaviour of the connections is the argument \<open>send\<close>.
\<close>

datatype send_outcome = Sent | ConnectionClosed | SendError

type_synonym 'c sender = "'c \<Rightarrow> string \<Rightarrow> send_outcome"

text \<open>
  \<open>_clients\<close> is a set; the list holds its members in the order a \<open>for\<close> loop
  visits them.
\<close>

record 'c websocket_server =
  clients :: "'c list"

definition discard :: "'c \<Rightarrow> 'c list \<Rightarrow> 'c list" where
  "discard c cs = removeAll c cs"

text \<open>
  \<open>await client.send(data)\<close> suspends \<open>broadcast\<close>, and the loop runs over
  \<open>_clients\<close> itself, not over a copy. While the send is awaited another task can
  change the set: \<open>_register\<close> adds a connection, \<open>_unregister\<close> (or the clean-up of
  another broadcast) discards one. A \<open>change\<close> is what happens to the set during one
  send, at most one addition or removal.
\<close>

datatype 'c change = Unchanged | Registered 'c | Unregistered 'c

definition apply_change :: "'c change \<Rightarrow> 'c list \<Rightarrow> 'c list" where
  "apply_change ch cs =
     (case ch of
        Unchanged \<Rightarrow> cs
      | Registered c \<Rightarrow> if c \<in> set cs then cs else cs @ [c]
      | Unregistered c \<Rightarrow> discard c cs)"

type_synonym 'c sends = "('c \<times> string \<times> send_outcome) list"

text \<open>
  The first loop of \<open>broadcast\<close>. \<open>changes\<close> are the changes during the sends, in
  order; beyond its end nothing changes. \<open>used\<close> is the size of the set when the
  loop began, \<open>to_visit\<close> the members the iterator has yet to give, \<open>live\<close> the set
  as it is now. Each step of the iterator first compares the size of the set with
  \<open>used\<close> and raises \<open>RuntimeError\<close> when they differ; it does so at the end of
  the set too. Beside \<open>failed_clients\<close> the loop keeps a record of every send it
  made, with the outcome. The result is the set, \<open>failed_clients\<close>, the record, and
  the exception if one was raised.
\<close>

fun send_loop ::
  "'c sender \<Rightarrow> string \<Rightarrow> 'c change list \<Rightarrow> nat \<Rightarrow> 'c list \<Rightarrow> 'c list \<Rightarrow> 'c list \<Rightarrow> 'c sends
     \<Rightarrow> 'c list \<times> 'c list \<times> 'c sends \<times> py_exception option" where
  "send_loop send data changes used [] live failed_clients sends =
     (if length live \<noteq> used then (live, failed_clients, sends, Some RuntimeError)
      else (live, failed_clients, sends, None))"
| "send_loop send data changes used (client # to_visit) live failed_clients sends =
     (if length live \<noteq> used then (live, failed_clients, sends, Some RuntimeError)
      else let outcome = send client data;
               live = apply_change (case changes of [] \<Rightarrow> Unchanged | ch # _ \<Rightarrow> ch) live;
               changes = tl changes
           in case outcome of
                Sent \<Rightarrow>
                  send_loop send data changes used to_visit live failed_clients
                    (sends @ [(client, data, Sent)])
              | ConnectionClosed \<Rightarrow>
                  send_loop send data changes used to_visit live (failed_clients @ [client])
                    (sends @ [(client, data, ConnectionClosed)])
              | SendError \<Rightarrow>
                  send_loop send data changes used to_visit live (failed_clients @ [client])
                    (sends @ [(client, data, SendError)]))"

text \<open>
  \<open>broadcast\<close>; \<open>dumps\<close> is the serialisation of a message (\<open>json.dumps\<close> of
  \<open>asdict\<close>). The result is the server, the record of the sends, and the exception
  if \<open>broadcast\<close> raised. The \<open>RuntimeError\<close> of the iterator is raised by the
  \<open>for\<close> statement, outside the \<open>try\<close>, so it leaves \<open>broadcast\<close> before the
  clean-up.
\<close>

definition broadcast ::
  "('m \<Rightarrow> string) \<Rightarrow> 'c sender \<Rightarrow> 'c change list \<Rightarrow> 'm \<Rightarrow> 'c websocket_server
     \<Rightarrow> 'c websocket_server \<times> 'c sends \<times> py_exception option" where
  "broadcast dumps send changes msg ws =
     (if clients ws = [] then (ws, [], None)
      else let data = dumps msg;
               (live, failed_clients, sends, raised) =
                  send_loop send data changes (length (clients ws)) (clients ws) (clients ws) [] []
           in case raised of
                Some e \<Rightarrow> (ws\<lparr>clients := live\<rparr>, sends, Some e)
              | None \<Rightarrow> (ws\<lparr>clients := fold discard failed_clients live\<rparr>, sends, None))"

definition delivered :: "'c sends \<Rightarrow> 'c list" where
  "delivered sends = map fst (filter (\<lambda>(c, d, outcome). outcome = Sent) sends)"

definition broadcast_transcript ::
  "(message \<Rightarrow> string) \<Rightarrow> 'c sender \<Rightarrow> 'c change list \<Rightarrow> string \<Rightarrow> string \<Rightarrow> bool
     \<Rightarrow> 'c websocket_server \<Rightarrow> 'c websocket_server \<times> 'c sends \<times> py_exception option" where
  "broadcast_transcript dumps send changes txt spk final ws =
     broadcast dumps send changes (TranscriptMessage txt spk final) ws"

definition broadcast_suggestions ::
  "(message \<Rightarrow> string) \<Rightarrow> 'c sender \<Rightarrow> 'c change list \<Rightarrow> string list
     \<Rightarrow> 'c websocket_server \<Rightarrow> 'c websocket_server \<times> 'c sends \<times> py_exception option" where
  "broadcast_suggestions dumps send changes suggestions ws =
     broadcast dumps send changes (SuggestionsMessage suggestions) ws"


section \<open>The assistant (main.py)\<close>

text \<open>\<open>TranscriptResult\<close> of transcription.py, with the fields the assistant reads.\<close>

datatype transcript_result =
  TranscriptResult (result_text: string) (result_speaker: int) (result_is_final: bool)

text \<open>
  The state of \<open>SalesAssistant\<close> that the transcript path touches.
  \<open>generation_lock\<close> is \<open>_generation_lock.locked()\<close>.
\<close>

record 'c sales_assistant =
  context_buffer :: conversation_buffer
  websocket_server :: "'c websocket_server"
  generation_lock :: bool

text \<open>\<open>_on_transcript\<close>, without the task it schedules.\<close>

definition on_transcript ::
  "transcript_result \<Rightarrow> int \<Rightarrow> int \<Rightarrow> 'c sales_assistant \<Rightarrow> 'c sales_assistant" where
  "on_transcript result created now a =
     a\<lparr>context_buffer :=
         add_transcript (result_text result) (result_speaker result) (result_is_final result)
           created now (context_buffer a)\<rparr>"

text \<open>
  \<open>_generate_suggestions\<close> waits once for the collaborator, in \<open>run_in_executor\<close>.
  Up to there it runs without a suspension: the lock is tested, taken (taking a free
  \<open>asyncio.Lock\<close> does not suspend), and the request is made. \<open>generate_suggestions_begin\<close>
  is that part; it gives the request made, if one was made. A return inside
  \<open>async with\<close> releases the lock.
\<close>

definition generate_suggestions_begin ::
  "'c sales_assistant \<Rightarrow> 'c sales_assistant \<times> (string \<times> string) option" where
  "generate_suggestions_begin a =
     (if generation_lock a then (a, None)
      else let a = a\<lparr>generation_lock := True\<rparr>
           in case get_last_prospect_statement (context_buffer a) of
                None \<Rightarrow> (a\<lparr>generation_lock := False\<rparr>, None)
              | Some last_statement \<Rightarrow>
                  if last_statement = [] then (a\<lparr>generation_lock := False\<rparr>, None)
                  else let context = get_context_string (Some 10) (context_buffer a)
                       in (a, Some (context, last_statement)))"

text \<open>
  The rest of \<open>_generate_suggestions\<close>, from the moment the collaborator has
  answered \<open>suggestions\<close>: mark, broadcast, and release the lock on the way out.
  \<open>changes\<close> are the changes to the live set during the sends of the broadcast;
  should the broadcast raise, the exception leaves through \<open>async with\<close>, which
  releases the lock.
\<close>

definition generate_suggestions_finish ::
  "(message \<Rightarrow> string) \<Rightarrow> 'c sender \<Rightarrow> 'c change list \<Rightarrow> string list \<Rightarrow> int
     \<Rightarrow> 'c sales_assistant \<Rightarrow> 'c sales_assistant \<times> 'c sends \<times> py_exception option" where
  "generate_suggestions_finish dumps send changes suggestions now a =
     (if suggestions \<noteq> []
      then let a = a\<lparr>context_buffer := mark_suggestion_sent now (context_buffer a)\<rparr>;
               (ws, sends, raised) =
                  broadcast_suggestions dumps send changes suggestions (websocket_server a)
           in (a\<lparr>websocket_server := ws, generation_lock := False\<rparr>, sends, raised)
      else (a\<lparr>generation_lock := False\<rparr>, [], None))"

text \<open>
  A whole round with nothing in between but the changes to the live set. Should
  \<open>generate_sync\<close> raise, the exception leaves through \<open>async with\<close>, which releases
  the lock.
\<close>

definition generate_suggestions ::
  "(message \<Rightarrow> string) \<Rightarrow> 'c sender \<Rightarrow> 'c change list \<Rightarrow> messages_create \<Rightarrow> int
     \<Rightarrow> 'c sales_assistant \<Rightarrow> 'c sales_assistant \<times> 'c sends \<times> py_exception option" where
  "generate_suggestions dumps send changes create now a =
     (case generate_suggestions_begin a of
        (a, None) \<Rightarrow> (a, [], None)
      | (a, Some (context, last_statement)) \<Rightarrow>
          (case generate_sync create context last_statement of
             Inl e \<Rightarrow> (a\<lparr>generation_lock := False\<rparr>, [], Some e)
           | Inr suggestions \<Rightarrow>
               generate_suggestions_finish dumps send changes suggestions now a))"

text \<open>
  \<open>_process_transcript\<close>. \<open>transcript_message\<close> is the message it broadcasts,
  \<open>wants_suggestions\<close> the test that guards \<open>_generate_suggestions\<close>; \<open>now\<close> is
  the clock as \<open>should_trigger_ai\<close> reads it, \<open>now'\<close> as \<open>mark_suggestion_sent\<close> does;
  \<open>changes\<close> and \<open>changes'\<close> are the changes to the live set during the broadcast
  of the transcript and of the suggestions. An exception of the broadcast or of the
  test ends the task where it stands.
\<close>

definition transcript_message :: "transcript_result \<Rightarrow> message" where
  "transcript_message result =
     (let speaker_label = (if result_speaker result = 0 then ''prospect'' else ''salesperson'')
      in TranscriptMessage (result_text result) speaker_label (result_is_final result))"

definition wants_suggestions ::
  "transcript_result \<Rightarrow> int \<Rightarrow> 'c sales_assistant \<Rightarrow> py_exception + bool" where
  "wants_suggestions result now a =
     (if \<not> result_is_final result then Inr False
      else should_trigger_ai now (context_buffer a))"

definition process_transcript ::
  "(message \<Rightarrow> string) \<Rightarrow> 'c sender \<Rightarrow> 'c change list \<Rightarrow> 'c change list \<Rightarrow> messages_create
     \<Rightarrow> transcript_result \<Rightarrow> int \<Rightarrow> int \<Rightarrow> 'c sales_assistant
     \<Rightarrow> 'c sales_assistant \<times> 'c sends \<times> py_exception option" where
  "process_transcript dumps send changes changes' create result now now' a =
     (let (ws, sends, raised) =
            broadcast dumps send changes (transcript_message result) (websocket_server a);
          a = a\<lparr>websocket_server := ws\<rparr>
      in case raised of
           Some e \<Rightarrow> (a, sends, Some e)
         | None \<Rightarrow>
             (case wants_suggestions result now a of
                Inl e \<Rightarrow> (a, sends, Some e)
              | Inr False \<Rightarrow> (a, sends, None)
              | Inr True \<Rightarrow>
                  (let (a, sends', raised) = generate_suggestions dumps send changes' create now' a
                   in (a, sends @ sends', raised))))"

text \<open>
  The assistant between suspensions. What happens to it, one event at a time:
  a fragment arrives (\<open>_on_transcript\<close>); a task reaches the test of
  \<open>_process_transcript\<close> and, if it passes, enters \<open>_generate_suggestions\<close>; something
  enters \<open>_generate_suggestions\<close> directly; the collaborator answers the oldest request
  that waits; a client clears the buffer. \<open>outstanding\<close> are the requests made and not
  yet answered. The end of a round is one event: the broadcast of the batch, during
  which the lock is still held, is taken together with the release of the lock, and
  the event carries the changes to the live set during that broadcast.
\<close>

datatype 'c event =
    Fragment transcript_result int int
  | Check transcript_result int
  | Trigger
  | Answer "string list" int "'c change list"
  | ClearBuffer

record 'c running =
  assistant :: "'c sales_assistant"
  outstanding :: "(string \<times> string) list"

definition enter_generation :: "'c running \<Rightarrow> 'c running" where
  "enter_generation s =
     (case generate_suggestions_begin (assistant s) of
        (a, None) \<Rightarrow> s\<lparr>assistant := a\<rparr>
      | (a, Some request) \<Rightarrow> s\<lparr>assistant := a, outstanding := outstanding s @ [request]\<rparr>)"

fun step ::
  "(message \<Rightarrow> string) \<Rightarrow> 'c sender \<Rightarrow> 'c event \<Rightarrow> 'c running \<Rightarrow> 'c running" where
  "step dumps send (Fragment result created now) s =
     s\<lparr>assistant := on_transcript result created now (assistant s)\<rparr>"
| "step dumps send (Check result now) s =
     (case wants_suggestions result now (assistant s) of
        Inr True \<Rightarrow> enter_generation s
      | _ \<Rightarrow> s)"
| "step dumps send Trigger s = enter_generation s"
| "step dumps send (Answer suggestions now changes) s =
     (case outstanding s of
        [] \<Rightarrow> s
      | request # waiting \<Rightarrow>
          s\<lparr>assistant :=
              fst (generate_suggestions_finish dumps send changes suggestions now (assistant s)),
            outstanding := waiting\<rparr>)"
| "step dumps send ClearBuffer s =
     s\<lparr>assistant := (assistant s)\<lparr>context_buffer := clear (context_buffer (assistant s))\<rparr>\<rparr>"

definition run ::
  "(message \<Rightarrow> string) \<Rightarrow> 'c sender \<Rightarrow> 'c event list \<Rightarrow> 'c running \<Rightarrow> 'c running" where
  "run dumps send events s = fold (step dumps send) events s"

definition started :: "'c sales_assistant \<Rightarrow> 'c running" where
  "started a = \<lparr> assistant = a\<lparr>generation_lock := False\<rparr>, outstanding = [] \<rparr>"


section \<open>Notions used in the statements\<close>

text \<open>
  The texts of the history are trimmed: \<open>strip\<close> leaves each as it is. It is what
  \<open>add_transcript\<close> stores.
\<close>

definition texts_trimmed :: "conversation_buffer \<Rightarrow> bool" where
  "texts_trimmed b \<longleftrightarrow> list_all (\<lambda>u. strip (u_text u) = u_text u) (utterances b)"

text \<open>
  A fragment as the buffer receives it: the result, the clock when the utterance is
  made, and the clock when the history is pruned.
\<close>

definition ingest ::
  "transcript_result \<times> int \<times> int \<Rightarrow> conversation_buffer \<Rightarrow> conversation_buffer" where
  "ingest = (\<lambda>(result, created, now).
     add_transcript (result_text result) (result_speaker result) (result_is_final result)
       created now)"

definition ingest_all ::
  "(transcript_result \<times> int \<times> int) list \<Rightarrow> conversation_buffer \<Rightarrow> conversation_buffer" where
  "ingest_all fragments b = fold ingest fragments b"

text \<open>
  The clock readings that a sequence of fragments brings, in the order they are
  taken, and the timestamps of the history, oldest first.
\<close>

definition clock_readings :: "(transcript_result \<times> int \<times> int) list \<Rightarrow> int list" where
  "clock_readings fragments = concat (map (\<lambda>(result, created, now). [created, now]) fragments)"

definition history_times :: "conversation_buffer \<Rightarrow> int list" where
  "history_times b = map timestamp (utterances b)"

text \<open>The role that the specification gives to a diarization speaker id.\<close>

definition role_of :: "int \<Rightarrow> string" where
  "role_of speaker_id = (if speaker_id = 0 then ''prospect'' else ''salesperson'')"

text \<open>
  The batch of a round of \<open>_generate_suggestions\<close>: what the collaborator's call
  gave, if the round got as far as making the call.
\<close>

definition round_batch :: "messages_create \<Rightarrow> 'c sales_assistant \<Rightarrow> string list option" where
  "round_batch create a =
     (case generate_suggestions_begin a of
        (a', None) \<Rightarrow> None
      | (a', Some (context, last_statement)) \<Rightarrow>
          (case generate_sync create context last_statement of
             Inl e \<Rightarrow> None
           | Inr suggestions \<Rightarrow> Some suggestions))"

text \<open>What holds of the running assistant between any two events.\<close>

definition single_flight :: "'c running \<Rightarrow> bool" where
  "single_flight s \<longleftrightarrow>
     length (outstanding s) \<le> 1 \<and> (outstanding s = [] \<or> generation_lock (assistant s))"


section \<open>Trimming\<close>

lemma rstrip_keeps_head:
  assumes "s \<noteq> []" "\<not> P (hd s)"
  shows "dropWhile P (rev (dropWhile P (rev s))) = rev (dropWhile P (rev s))"
proof -
  from assms obtain c r where s: "s = c # r" and c: "\<not> P c" by (cases s) auto
  have "dropWhile P (rev r @ [c]) = (dropWhile P (rev r)) @ [c] \<or> dropWhile P (rev r @ [c]) = [c]"
    using c by (simp add: dropWhile_append)
  then obtain q where "dropWhile P (rev s) = q @ [c]" unfolding s by auto
  then show ?thesis using c by simp
qed

lemma strip_Nil: "strip [] = []"
  by (simp add: strip_def lstrip_def rstrip_def)

lemma strip_idem: "strip (strip s) = strip s"
proof (cases "lstrip s = []")
  case True
  then have "strip s = []" by (simp add: strip_def rstrip_def)
  then show ?thesis by (simp add: strip_Nil)
next
  case False
  then have h: "\<not> isspace (hd (lstrip s))" unfolding lstrip_def by (rule hd_dropWhile)
  have "lstrip (rstrip (lstrip s)) = rstrip (lstrip s)"
    unfolding rstrip_def lstrip_def
    using rstrip_keeps_head[of "lstrip s" isspace, OF False h] by (simp add: lstrip_def)
  moreover have "rstrip (rstrip t) = rstrip t" for t
    by (simp add: rstrip_def dropWhile_idem)
  ultimately show ?thesis by (simp add: strip_def)
qed


section \<open>The buffer\<close>

lemma popleft_while_old_dropWhile:
  "popleft_while_old cutoff us = dropWhile (\<lambda>u. timestamp u < cutoff) us"
  by (induction us) auto

lemma set_popleft_while_old: "set (popleft_while_old cutoff us) \<subseteq> set us"
  by (simp add: popleft_while_old_dropWhile set_dropWhileD subsetI)

lemma texts_trimmed_new: "texts_trimmed (new_buffer md cd)"
  by (simp add: texts_trimmed_def new_buffer_def)

lemma texts_trimmed_add_transcript:
  assumes "texts_trimmed b"
  shows "texts_trimmed (add_transcript txt spk final created now b)"
proof -
  have "\<forall>u \<in> set (utterances b). strip (u_text u) = u_text u"
    using assms by (simp add: texts_trimmed_def list_all_iff)
  then show ?thesis
    using set_popleft_while_old
    by (fastforce simp: texts_trimmed_def list_all_iff add_transcript_def add_def prune_old_def
        Let_def strip_idem)
qed

lemma texts_trimmed_mark: "texts_trimmed (mark_suggestion_sent now b) = texts_trimmed b"
  by (simp add: texts_trimmed_def mark_suggestion_sent_def)

lemma texts_trimmed_clear: "texts_trimmed (clear b)"
  by (simp add: texts_trimmed_def clear_def)

lemma ingest_keeps_cooldown_state:
  "last_suggestion_time (ingest f b) = last_suggestion_time b \<and>
   suggestion_cooldown (ingest f b) = suggestion_cooldown b"
  by (cases f) (simp add: ingest_def add_transcript_def add_def prune_old_def Let_def)

lemma ingest_all_keeps_cooldown_state:
  "last_suggestion_time (ingest_all fs b) = last_suggestion_time b \<and>
   suggestion_cooldown (ingest_all fs b) = suggestion_cooldown b"
  unfolding ingest_all_def
  by (induction fs arbitrary: b) (simp_all add: ingest_keeps_cooldown_state)


section \<open>When suggestions are asked for\<close>

text \<open>
  C1. In every buffer whose texts are trimmed, as ingestion leaves them,
  \<open>should_trigger_ai\<close> is false when the history is empty, false when a suggestion
  was marked and less than the cooldown has passed since, false when the newest entry
  is not the prospect's or not final, false when its trimmed text is shorter than 10,
  and true in every other case. Within the cooldown after \<open>mark_suggestion_sent\<close> it
  is false whatever fragments have been ingested since.
\<close>

theorem should_trigger_ai_decision:
  assumes "texts_trimmed b"
  shows "should_trigger_ai now b =
            Inr (utterances b \<noteq> [] \<and>
                 \<not> (\<exists>t. last_suggestion_time b = Some t \<and>
                          elapsed_seconds now t < suggestion_cooldown b) \<and>
                 speaker (last (utterances b)) = ''prospect'' \<and>
                 is_final (last (utterances b)) \<and>
                 \<not> length (strip (u_text (last (utterances b)))) < 10)
         \<and> (\<forall>fragments t. elapsed_seconds now t < suggestion_cooldown b \<longrightarrow>
               should_trigger_ai now (ingest_all fragments (mark_suggestion_sent t b)) = Inr False)"
proof (intro conjI allI impI)
  show "should_trigger_ai now b =
            Inr (utterances b \<noteq> [] \<and>
                 \<not> (\<exists>t. last_suggestion_time b = Some t \<and>
                          elapsed_seconds now t < suggestion_cooldown b) \<and>
                 speaker (last (utterances b)) = ''prospect'' \<and>
                 is_final (last (utterances b)) \<and>
                 \<not> length (strip (u_text (last (utterances b)))) < 10)"
  proof (cases "utterances b = []")
    case True
    then show ?thesis by (simp add: should_trigger_ai_def)
  next
    case False
    then have "last (utterances b) \<in> set (utterances b)" by simp
    then have "strip (u_text (last (utterances b))) = u_text (last (utterances b))"
      using assms by (simp add: texts_trimmed_def list_all_iff)
    then show ?thesis using False
      by (auto simp: should_trigger_ai_def rightmost_def split: option.splits)
  qed
next
  fix fragments t
  assume cool: "elapsed_seconds now t < suggestion_cooldown b"
  let ?b = "ingest_all fragments (mark_suggestion_sent t b)"
  have "last_suggestion_time ?b = Some t" "suggestion_cooldown ?b = suggestion_cooldown b"
    by (simp_all add: ingest_all_keeps_cooldown_state mark_suggestion_sent_def)
  then show "should_trigger_ai now ?b = Inr False"
    using cool by (simp add: should_trigger_ai_def)
qed

theorem should_trigger_ai_decision_witness:
  "texts_trimmed
     (ingest_all [(TranscriptResult ''  That's too expensive for our budget right now '' 0 True, 0, 0)]
        (new_buffer 180 5))
   \<and> should_trigger_ai 1000000
       (ingest_all [(TranscriptResult ''  That's too expensive for our budget right now '' 0 True, 0, 0)]
          (new_buffer 180 5)) = Inr True
   \<and> should_trigger_ai 5999999
       (ingest_all [(TranscriptResult ''We cannot afford that at all'' 0 True, 2000000, 2000000)]
          (mark_suggestion_sent 1000000
             (ingest_all [(TranscriptResult ''  That's too expensive for our budget right now '' 0 True, 0, 0)]
                (new_buffer 180 5)))) = Inr False"
proof -
  let ?b = "ingest_all [(TranscriptResult ''  That's too expensive for our budget right now '' 0 True, 0, 0)]
              (new_buffer 180 5)"
  have trimmed: "texts_trimmed ?b" by code_simp
  have cool: "elapsed_seconds 5999999 1000000 < suggestion_cooldown ?b" by code_simp
  have never_marked: "last_suggestion_time ?b = None" by code_simp
  have newest: "utterances ?b \<noteq> [] \<and>
            speaker (last (utterances ?b)) = ''prospect'' \<and>
            is_final (last (utterances ?b)) \<and>
            \<not> length (strip (u_text (last (utterances ?b)))) < 10"
    by code_simp
  have fires: "utterances ?b \<noteq> [] \<and>
            \<not> (\<exists>t. last_suggestion_time ?b = Some t \<and>
                     elapsed_seconds 1000000 t < suggestion_cooldown ?b) \<and>
            speaker (last (utterances ?b)) = ''prospect'' \<and>
            is_final (last (utterances ?b)) \<and>
            \<not> length (strip (u_text (last (utterances ?b)))) < 10"
    using never_marked newest by simp
  from should_trigger_ai_decision[OF trimmed, of 1000000] fires
  have "should_trigger_ai 1000000 ?b = Inr True" by simp
  moreover from should_trigger_ai_decision[OF trimmed, of 5999999] cool
  have "should_trigger_ai 5999999
       (ingest_all [(TranscriptResult ''We cannot afford that at all'' 0 True, 2000000, 2000000)]
          (mark_suggestion_sent 1000000 ?b)) = Inr False" by blast
  ultimately show ?thesis using trimmed by blast
qed


section \<open>The history stays sorted and, after a final fragment, fresh\<close>

lemma clock_readings_append:
  "clock_readings (xs @ ys) = clock_readings xs @ clock_readings ys"
  by (simp add: clock_readings_def)

lemma clock_readings_Cons:
  "clock_readings ((r, created, now) # fs) = created # now # clock_readings fs"
  by (simp add: clock_readings_def)

lemma sorted_popleft_while_old:
  "sorted (map timestamp us) \<Longrightarrow> sorted (map timestamp (popleft_while_old cutoff us))"
  by (induction us) auto

lemma fresh_popleft_while_old:
  "sorted (map timestamp us) \<Longrightarrow> \<forall>u \<in> set (popleft_while_old cutoff us). cutoff \<le> timestamp u"
  by (induction us) auto

lemma ingest_max_duration: "max_duration (ingest f b) = max_duration b"
  by (cases f) (simp add: ingest_def add_transcript_def add_def prune_old_def Let_def)

lemma ingest_all_max_duration: "max_duration (ingest_all fs b) = max_duration b"
  unfolding ingest_all_def by (induction fs arbitrary: b) (simp_all add: ingest_max_duration)

lemma ingest_all_append: "ingest_all (xs @ ys) b = ingest_all ys (ingest_all xs b)"
  by (simp add: ingest_all_def)

lemma utterances_ingest_final:
  "result_is_final r \<Longrightarrow>
   utterances (ingest (r, created, now) b) =
     popleft_while_old (now - max_duration b * 1000000)
       (utterances b @ [\<lparr> speaker = (if result_speaker r = 0 then ''prospect'' else ''salesperson''),
                          u_text = strip (result_text r), timestamp = created, is_final = True \<rparr>])"
  by (simp add: ingest_def add_transcript_def add_def prune_old_def Let_def)

lemma utterances_ingest_interim:
  "\<not> result_is_final r \<Longrightarrow> utterances (ingest (r, created, now) b) = utterances b"
  by (simp add: ingest_def add_transcript_def add_def Let_def)

lemma ingest_sorted_step:
  assumes "sorted (history_times b @ created # now # rest)"
  shows "sorted (history_times (ingest (r, created, now) b) @ rest)"
proof (cases "result_is_final r")
  case False
  then show ?thesis using assms
    by (simp add: history_times_def utterances_ingest_interim sorted_append)
next
  case True
  let ?u = "\<lparr> speaker = (if result_speaker r = 0 then ''prospect'' else ''salesperson''),
              u_text = strip (result_text r), timestamp = created, is_final = True \<rparr>"
  let ?us = "utterances b @ [?u]"
  let ?kept = "popleft_while_old (now - max_duration b * 1000000) ?us"
  have sorted_us: "sorted (map timestamp ?us)"
    using assms by (auto simp: history_times_def sorted_append)
  have "sorted (map timestamp ?kept)" using sorted_us by (rule sorted_popleft_while_old)
  moreover have "\<forall>u \<in> set ?kept. \<forall>t \<in> set rest. timestamp u \<le> t"
  proof (intro ballI)
    fix u t assume "u \<in> set ?kept" "t \<in> set rest"
    then have "u \<in> set ?us" using set_popleft_while_old by blast
    then have "timestamp u \<le> created" using assms
      by (auto simp: history_times_def sorted_append)
    moreover have "created \<le> t" using assms \<open>t \<in> set rest\<close>
      by (auto simp: sorted_append)
    ultimately show "timestamp u \<le> t" by simp
  qed
  moreover have "sorted rest" using assms by (simp add: sorted_append)
  ultimately show ?thesis
    using True by (simp add: history_times_def utterances_ingest_final sorted_append)
qed

lemma ingest_all_sorted_prefix:
  "sorted (history_times b @ clock_readings xs @ rest) \<Longrightarrow>
   sorted (history_times (ingest_all xs b) @ rest)"
proof (induction xs arbitrary: b)
  case Nil
  then show ?case by (simp add: ingest_all_def clock_readings_def)
next
  case (Cons f fs)
  obtain r created now where f: "f = (r, created, now)" by (cases f) auto
  from Cons.prems have "sorted (history_times b @ created # now # (clock_readings fs @ rest))"
    by (simp add: f clock_readings_Cons)
  then have "sorted (history_times (ingest (r, created, now) b) @ clock_readings fs @ rest)"
    by (rule ingest_sorted_step)
  then have "sorted (history_times (ingest_all fs (ingest f b)) @ rest)"
    unfolding f by (rule Cons.IH)
  then show ?case by (simp add: ingest_all_def)
qed

lemma ingest_fresh_step:
  assumes "sorted (history_times b @ [created, now])" "result_is_final r"
  shows "\<forall>u \<in> set (utterances (ingest (r, created, now) b)).
           now - max_duration b * 1000000 \<le> timestamp u"
proof -
  let ?u = "\<lparr> speaker = (if result_speaker r = 0 then ''prospect'' else ''salesperson''),
              u_text = strip (result_text r), timestamp = created, is_final = True \<rparr>"
  have "sorted (map timestamp (utterances b @ [?u]))"
    using assms(1) by (auto simp: history_times_def sorted_append)
  then show ?thesis
    unfolding utterances_ingest_final[OF assms(2)] by (rule fresh_popleft_while_old)
qed

text \<open>
  C4, as the code has it. Let the clock never run backwards over a sequence of
  fragments, and let the history at the start be sorted and no later than the first
  reading. Then after each ingest the history is sorted by timestamp. After the
  ingest of a final fragment every entry is at least as young as the clock of that
  ingest less the retention. The ingest of an interim fragment evicts nothing: it
  leaves the history as it was.
\<close>

theorem history_sorted_and_fresh:
  assumes "sorted (history_times b @ clock_readings fragments)"
    and "n < length fragments"
    and "fragments ! n = (r, created, now)"
  shows "sorted (history_times (ingest_all (take (Suc n) fragments) b))
       \<and> (result_is_final r \<longrightarrow>
            (\<forall>u \<in> set (utterances (ingest_all (take (Suc n) fragments) b)).
               now - max_duration b * 1000000 \<le> timestamp u))
       \<and> (\<not> result_is_final r \<longrightarrow>
            utterances (ingest_all (take (Suc n) fragments) b) =
            utterances (ingest_all (take n fragments) b))"
proof -
  let ?before = "ingest_all (take n fragments) b"
  have split: "fragments = take n fragments @ (r, created, now) # drop (Suc n) fragments"
    using assms(2,3) by (metis id_take_nth_drop)
  have after: "ingest_all (take (Suc n) fragments) b = ingest (r, created, now) ?before"
    using assms(2,3) by (simp add: take_Suc_conv_app_nth ingest_all_append) (simp add: ingest_all_def)
  have "sorted (history_times b @ clock_readings (take n fragments)
                 @ created # now # clock_readings (drop (Suc n) fragments))"
    using assms(1) by (subst (asm) split) (simp add: clock_readings_append clock_readings_Cons)
  then have here: "sorted (history_times ?before @ created # now # clock_readings (drop (Suc n) fragments))"
    by (rule ingest_all_sorted_prefix)
  then have "sorted (history_times (ingest (r, created, now) ?before) @ clock_readings (drop (Suc n) fragments))"
    by (rule ingest_sorted_step)
  then have 1: "sorted (history_times (ingest_all (take (Suc n) fragments) b))"
    by (simp add: after sorted_append)
  from here have two: "sorted (history_times ?before @ [created, now])"
    by (simp add: sorted_append)
  have 2: "result_is_final r \<Longrightarrow> \<forall>u \<in> set (utterances (ingest_all (take (Suc n) fragments) b)).
               now - max_duration b * 1000000 \<le> timestamp u"
    using ingest_fresh_step[OF two] by (simp add: after ingest_all_max_duration)
  have 3: "\<not> result_is_final r \<Longrightarrow> utterances (ingest_all (take (Suc n) fragments) b) =
            utterances (ingest_all (take n fragments) b)"
    by (simp add: after utterances_ingest_interim)
  from 1 2 3 show ?thesis by blast
qed


theorem history_sorted_and_fresh_witness:
  "sorted (history_times (new_buffer 180 5) @
           clock_readings [(TranscriptResult ''We will think about it'' 0 True, 0, 1),
                           (TranscriptResult ''Sure, take your time'' 1 True, 200000000, 200000001)])
   \<and> result_is_final (TranscriptResult ''Sure, take your time'' 1 True)
   \<and> sorted (history_times
         (ingest_all (take (Suc 1)
            [(TranscriptResult ''We will think about it'' 0 True, 0, 1),
             (TranscriptResult ''Sure, take your time'' 1 True, 200000000, 200000001)])
            (new_buffer 180 5)))
   \<and> list_all (\<lambda>u. 200000001 - max_duration (new_buffer 180 5) * 1000000 \<le> timestamp u)
        (utterances
         (ingest_all (take (Suc 1)
            [(TranscriptResult ''We will think about it'' 0 True, 0, 1),
             (TranscriptResult ''Sure, take your time'' 1 True, 200000000, 200000001)])
            (new_buffer 180 5)))"
proof -
  let ?fs = "[(TranscriptResult ''We will think about it'' 0 True, 0, 1),
              (TranscriptResult ''Sure, take your time'' 1 True, 200000000, 200000001)]"
  have clock: "sorted (history_times (new_buffer 180 5) @ clock_readings ?fs)" by code_simp
  have len: "1 < length ?fs" by simp
  have nth: "?fs ! 1 = (TranscriptResult ''Sure, take your time'' 1 True, 200000000, 200000001)"
    by simp
  have final: "result_is_final (TranscriptResult ''Sure, take your time'' 1 True)" by simp
  from history_sorted_and_fresh[OF clock len nth] final clock
  show ?thesis by (simp only: list_all_iff) blast
qed

text \<open>
  The claim as it is written fails after an interim fragment: a final fragment at
  time 0 and an interim one 200 seconds later leave the entry of time 0 in the
  history, older than the retention of 180 seconds allows.
\<close>

theorem stale_entry_after_interim_ingest:
  "history_times
     (ingest_all [(TranscriptResult ''We will think about it'' 0 True, 0, 0),
                  (TranscriptResult ''Sure, take'' 1 False, 200000000, 200000000)]
        (new_buffer 180 5)) = [0]
   \<and> (0::int) < 200000000 - max_duration (new_buffer 180 5) * 1000000"
  by code_simp

section \<open>Asking at other times\<close>

lemma last_popleft_while_old:
  "popleft_while_old cutoff (us @ [u]) = [] \<or> last (popleft_while_old cutoff (us @ [u])) = u"
  by (induction us) auto

lemma should_trigger_ai_returns: "\<exists>v. should_trigger_ai t b = Inr v"
proof (cases "utterances b = []")
  case True
  then have "should_trigger_ai t b = Inr False" by (simp add: should_trigger_ai_def)
  then show ?thesis by blast
next
  case False
  then have "rightmost (utterances b) = Inr (last (utterances b))"
    by (simp add: rightmost_def)
  then show ?thesis by (auto simp: should_trigger_ai_def)
qed

lemma should_trigger_ai_reads:
  assumes "utterances b' = utterances b"
    and "last_suggestion_time b' = last_suggestion_time b"
    and "suggestion_cooldown b' = suggestion_cooldown b"
  shows "should_trigger_ai t b' = should_trigger_ai t b"
  unfolding should_trigger_ai_def assms by (rule refl)

lemma should_trigger_ai_after_other_speaker:
  assumes "spk \<noteq> 0"
  shows "should_trigger_ai t (add_transcript txt spk True created now b) = Inr False"
proof -
  let ?u = "\<lparr> speaker = ''salesperson'', u_text = strip txt, timestamp = created, is_final = True \<rparr>"
  let ?kept = "popleft_while_old (now - max_duration b * 1000000) (utterances b @ [?u])"
  have kept: "utterances (add_transcript txt spk True created now b) = ?kept"
    using assms by (simp add: add_transcript_def add_def prune_old_def Let_def)
  have "?kept = [] \<or> last ?kept = ?u" by (rule last_popleft_while_old)
  then have "?kept = [] \<or> speaker (last ?kept) \<noteq> ''prospect''" by auto
  then show ?thesis
    unfolding should_trigger_ai_def rightmost_def kept
    by (auto split: option.splits)
qed

text \<open>
  C8, as the code has it. \<open>should_trigger_ai\<close> returns whenever it is called, and
  it is false on an empty history, after a final fragment of a speaker other than 0,
  and within the cooldown after \<open>mark_suggestion_sent\<close>. An interim fragment does
  not change what it answers; it is the test in \<open>_process_transcript\<close> that is false
  for every interim fragment.
\<close>

theorem should_trigger_ai_at_other_times:
  "(\<exists>v. should_trigger_ai t b = Inr v)
   \<and> (utterances b = [] \<longrightarrow> should_trigger_ai t b = Inr False)
   \<and> should_trigger_ai t (add_transcript txt spk False created now b) = should_trigger_ai t b
   \<and> (\<not> result_is_final r \<longrightarrow> wants_suggestions r t a = Inr False)
   \<and> (spk \<noteq> 0 \<longrightarrow> should_trigger_ai t (add_transcript txt spk True created now b) = Inr False)
   \<and> (elapsed_seconds t m < suggestion_cooldown b \<longrightarrow>
        should_trigger_ai t (mark_suggestion_sent m b) = Inr False)"
proof (intro conjI impI)
  show "\<exists>v. should_trigger_ai t b = Inr v" by (rule should_trigger_ai_returns)
  show "should_trigger_ai t b = Inr False" if "utterances b = []"
    using that by (simp add: should_trigger_ai_def)
  show "should_trigger_ai t (add_transcript txt spk False created now b) = should_trigger_ai t b"
    by (rule should_trigger_ai_reads) (simp_all add: add_transcript_def add_def Let_def)
  show "wants_suggestions r t a = Inr False" if "\<not> result_is_final r"
    using that by (simp add: wants_suggestions_def)
  show "should_trigger_ai t (add_transcript txt spk True created now b) = Inr False" if "spk \<noteq> 0"
    using that by (rule should_trigger_ai_after_other_speaker)
  show "should_trigger_ai t (mark_suggestion_sent m b) = Inr False"
    if "elapsed_seconds t m < suggestion_cooldown b"
    using that by (simp add: should_trigger_ai_def mark_suggestion_sent_def)
qed

theorem should_trigger_ai_at_other_times_witness:
  "should_trigger_ai 0 (new_buffer 180 5) = Inr False
   \<and> wants_suggestions (TranscriptResult ''That is too'' 0 False) 1000000
       \<lparr> context_buffer =
           ingest_all [(TranscriptResult ''That is too expensive for us'' 0 True, 0, 0)]
             (new_buffer 180 5),
         websocket_server = \<lparr> clients = [] :: nat list \<rparr>,
         generation_lock = False \<rparr> = Inr False
   \<and> should_trigger_ai 2000000
       (add_transcript ''I understand the concern'' 1 True 1000000 1000000
          (ingest_all [(TranscriptResult ''That is too expensive for us'' 0 True, 0, 0)]
             (new_buffer 180 5))) = Inr False
   \<and> should_trigger_ai 3000000
       (mark_suggestion_sent 1000000
          (ingest_all [(TranscriptResult ''That is too expensive for us'' 0 True, 0, 0)]
             (new_buffer 180 5))) = Inr False"
proof -
  let ?b = "ingest_all [(TranscriptResult ''That is too expensive for us'' 0 True, 0, 0)]
              (new_buffer 180 5)"
  have empty: "utterances (new_buffer 180 5) = []" by (simp add: new_buffer_def)
  have interim: "\<not> result_is_final (TranscriptResult ''That is too'' 0 False)" by simp
  have other: "(1::int) \<noteq> 0" by simp
  have cool: "elapsed_seconds 3000000 1000000 < suggestion_cooldown ?b" by code_simp
  from should_trigger_ai_at_other_times[of 0 "new_buffer 180 5"] empty
  have "should_trigger_ai 0 (new_buffer 180 5) = Inr False" by blast
  moreover from should_trigger_ai_at_other_times[where r = "TranscriptResult ''That is too'' 0 False"] interim
  have "wants_suggestions (TranscriptResult ''That is too'' 0 False) t a = Inr False" for t and a :: "nat sales_assistant"
    by blast
  moreover from should_trigger_ai_at_other_times[where spk = 1] other
  have "should_trigger_ai 2000000 (add_transcript ''I understand the concern'' 1 True 1000000 1000000 ?b) = Inr False"
    by blast
  moreover from should_trigger_ai_at_other_times[of 3000000 ?b _ _ _ _ _ _ 1000000] cool
  have "should_trigger_ai 3000000 (mark_suggestion_sent 1000000 ?b) = Inr False"
    by blast
  ultimately show ?thesis by blast
qed

text \<open>
  The claim as it is written fails after an interim fragment: with a final fragment
  of the prospect in the history and no suggestion marked, \<open>should_trigger_ai\<close> is
  true after the interim fragment that follows.
\<close>

theorem should_trigger_ai_true_after_interim_ingest:
  "should_trigger_ai 1000000
     (ingest_all [(TranscriptResult ''That is too expensive for us'' 0 True, 0, 0),
                  (TranscriptResult ''Could you'' 0 False, 1000000, 1000000)]
        (new_buffer 180 5)) = Inr True"
  by code_simp

section \<open>The context string\<close>

lemma join_not_empty:
  assumes "xs \<noteq> []" and "hd xs \<noteq> []"
  shows "join sep xs \<noteq> []"
proof (cases xs)
  case Nil
  then show ?thesis using assms by simp
next
  case (Cons x rest)
  then show ?thesis using assms by (cases rest) auto
qed

lemma render_not_empty: "render u \<noteq> []"
  by (simp add: render_def)

lemma rendering_not_empty:
  assumes "us \<noteq> []"
  shows "join sep (map render us) \<noteq> []"
proof (rule join_not_empty)
  show "map render us \<noteq> []" using assms by simp
  show "hd (map render us) \<noteq> []" using assms by (simp add: hd_map render_not_empty)
qed

lemma slice_from_not_empty:
  assumes "nat \<bar>n\<bar> < length us"
  shows "(if n \<noteq> 0 then slice_from (- n) us else us) \<noteq> []"
  using assms by (auto simp: slice_from_def)

text \<open>
  C9. With \<open>last_n = 0\<close> the context string is that of all the final utterances,
  the same as with no \<open>last_n\<close>, and so it is not empty when there is a final
  utterance. No value of \<open>last_n\<close> asks for zero utterances: whatever it is, a history
  with more final utterances than its magnitude gives a string that is not empty.
\<close>

theorem get_context_string_zero_is_all:
  "context_utterances (Some 0) b = filter is_final (utterances b)
   \<and> get_context_string (Some 0) b = get_context_string None b
   \<and> get_context_string (Some 0) b = join ''\<newline>'' (map render (filter is_final (utterances b)))
   \<and> (filter is_final (utterances b) \<noteq> [] \<longrightarrow> get_context_string (Some 0) b \<noteq> [])
   \<and> (\<forall>n. nat \<bar>n\<bar> < length (filter is_final (utterances b)) \<longrightarrow>
          get_context_string (Some n) b \<noteq> [])"
proof (intro conjI impI allI)
  show "context_utterances (Some 0) b = filter is_final (utterances b)"
    by (simp add: context_utterances_def)
  show "get_context_string (Some 0) b = get_context_string None b"
    by (simp add: get_context_string_def context_utterances_def)
  show "get_context_string (Some 0) b = join ''\<newline>'' (map render (filter is_final (utterances b)))"
    by (simp add: get_context_string_def context_utterances_def)
  show "get_context_string (Some 0) b \<noteq> []" if "filter is_final (utterances b) \<noteq> []"
    using rendering_not_empty[OF that] by (simp add: get_context_string_def context_utterances_def)
  show "get_context_string (Some n) b \<noteq> []" if "nat \<bar>n\<bar> < length (filter is_final (utterances b))" for n
  proof -
    have "context_utterances (Some n) b \<noteq> []"
      using slice_from_not_empty[OF that] by (simp add: context_utterances_def Let_def)
    then show ?thesis unfolding get_context_string_def by (rule rendering_not_empty)
  qed
qed

theorem get_context_string_zero_is_all_witness:
  "filter is_final
     (utterances (ingest_all [(TranscriptResult ''That is too expensive'' 0 True, 0, 0),
                              (TranscriptResult ''I understand'' 1 True, 1000000, 1000000)]
                    (new_buffer 180 5))) \<noteq> []
   \<and> get_context_string (Some 0)
       (ingest_all [(TranscriptResult ''That is too expensive'' 0 True, 0, 0),
                    (TranscriptResult ''I understand'' 1 True, 1000000, 1000000)]
          (new_buffer 180 5))
     = ''Prospect: That is too expensive\<newline>Salesperson: I understand''
   \<and> get_context_string (Some 0)
       (ingest_all [(TranscriptResult ''That is too expensive'' 0 True, 0, 0),
                    (TranscriptResult ''I understand'' 1 True, 1000000, 1000000)]
          (new_buffer 180 5)) \<noteq> []
   \<and> get_context_string (Some (- 1))
       (ingest_all [(TranscriptResult ''That is too expensive'' 0 True, 0, 0),
                    (TranscriptResult ''I understand'' 1 True, 1000000, 1000000)]
          (new_buffer 180 5)) \<noteq> []"
proof -
  let ?b = "ingest_all [(TranscriptResult ''That is too expensive'' 0 True, 0, 0),
                        (TranscriptResult ''I understand'' 1 True, 1000000, 1000000)]
              (new_buffer 180 5)"
  have some: "filter is_final (utterances ?b) \<noteq> []" by code_simp
  have more: "nat \<bar>- 1\<bar> < length (filter is_final (utterances ?b))" by code_simp
  have all: "join ''\<newline>'' (map render (filter is_final (utterances ?b)))
             = ''Prospect: That is too expensive\<newline>Salesperson: I understand''"
    by code_simp
  note inst = get_context_string_zero_is_all[of ?b]
  from inst have "get_context_string (Some 0) ?b
     = join ''\<newline>'' (map render (filter is_final (utterances ?b)))" by blast
  then have "get_context_string (Some 0) ?b
     = ''Prospect: That is too expensive\<newline>Salesperson: I understand''"
    by (simp only: all)
  moreover from inst some have "get_context_string (Some 0) ?b \<noteq> []" by blast
  moreover from inst more have "get_context_string (Some (- 1)) ?b \<noteq> []" by blast
  ultimately show ?thesis using some by blast
qed


section \<open>Speaker ids and roles\<close>

lemma role_of_cases:
  "(role_of spk = ''prospect'' \<longleftrightarrow> spk = 0) \<and> (role_of spk = ''salesperson'' \<longleftrightarrow> spk \<noteq> 0)"
  by (simp add: role_of_def)

text \<open>
  C10. The role is the prospect's exactly when the speaker id is 0, and the
  salesperson's for every other id. That role is the speaker of the utterance that
  \<open>add_transcript\<close> stores, as the pending interim or at the end of the history before
  pruning, and the speaker of the transcript message that \<open>_process_transcript\<close>
  broadcasts first, whatever happens to the live set meanwhile.
\<close>

theorem speaker_role_from_id:
  "(role_of spk = ''prospect'' \<longleftrightarrow> spk = 0)
   \<and> (role_of spk = ''salesperson'' \<longleftrightarrow> spk \<noteq> 0)
   \<and> map_option speaker (pending_interim (add_transcript txt spk False created now b))
       = Some (role_of spk)
   \<and> utterances (add_transcript txt spk True created now b)
       = popleft_while_old (now - max_duration b * 1000000)
           (utterances b @ [\<lparr> speaker = role_of spk, u_text = strip txt,
                              timestamp = created, is_final = True \<rparr>])
   \<and> transcript_message r
       = TranscriptMessage (result_text r) (role_of (result_speaker r)) (result_is_final r)
   \<and> (\<exists>later. fst (snd (process_transcript dumps send changes changes' create r t t' a))
         = fst (snd (broadcast dumps send changes
                  (TranscriptMessage (result_text r) (role_of (result_speaker r)) (result_is_final r))
                  (websocket_server a))) @ later)"
proof (intro conjI)
  show "role_of spk = ''prospect'' \<longleftrightarrow> spk = 0" by (simp add: role_of_def)
  show "role_of spk = ''salesperson'' \<longleftrightarrow> spk \<noteq> 0" by (simp add: role_of_def)
  show "map_option speaker (pending_interim (add_transcript txt spk False created now b))
       = Some (role_of spk)"
    by (simp add: add_transcript_def add_def role_of_def)
  show "utterances (add_transcript txt spk True created now b)
       = popleft_while_old (now - max_duration b * 1000000)
           (utterances b @ [\<lparr> speaker = role_of spk, u_text = strip txt,
                              timestamp = created, is_final = True \<rparr>])"
    by (simp add: add_transcript_def add_def prune_old_def role_of_def Let_def)
  show msg: "transcript_message r
       = TranscriptMessage (result_text r) (role_of (result_speaker r)) (result_is_final r)"
    by (simp add: transcript_message_def role_of_def)
  show "\<exists>later. fst (snd (process_transcript dumps send changes changes' create r t t' a))
         = fst (snd (broadcast dumps send changes
                  (TranscriptMessage (result_text r) (role_of (result_speaker r)) (result_is_final r))
                  (websocket_server a))) @ later"
    unfolding process_transcript_def msg
    by (auto simp: Let_def split: prod.splits sum.splits bool.splits option.splits)
qed

theorem speaker_role_from_id_witness:
  "map_option speaker
     (pending_interim (add_transcript ''I am not'' 0 False 1000000 1000000 (new_buffer 180 5)))
     = Some ''prospect''
   \<and> map_option speaker
       (pending_interim (add_transcript ''Let me explain'' 3 False 1000000 1000000 (new_buffer 180 5)))
     = Some ''salesperson''
   \<and> transcript_message (TranscriptResult ''Let me explain'' 3 True)
     = TranscriptMessage ''Let me explain'' ''salesperson'' True"
proof -
  have counterpart: "role_of 0 = ''prospect''" and operator: "role_of 3 = ''salesperson''"
    by (simp_all add: role_of_def)
  from speaker_role_from_id[of 0 "''I am not''" 1000000 1000000 "new_buffer 180 5"]
  have "map_option speaker
     (pending_interim (add_transcript ''I am not'' 0 False 1000000 1000000 (new_buffer 180 5)))
     = Some (role_of 0)"
    by blast
  then have 1: "map_option speaker
     (pending_interim (add_transcript ''I am not'' 0 False 1000000 1000000 (new_buffer 180 5)))
     = Some ''prospect''"
    by (simp only: counterpart)
  from speaker_role_from_id[of 3 "''Let me explain''" 1000000 1000000 "new_buffer 180 5"
      "TranscriptResult ''Let me explain'' 3 True"]
  have "map_option speaker
     (pending_interim (add_transcript ''Let me explain'' 3 False 1000000 1000000 (new_buffer 180 5)))
     = Some (role_of 3)"
    and "transcript_message (TranscriptResult ''Let me explain'' 3 True)
     = TranscriptMessage (result_text (TranscriptResult ''Let me explain'' 3 True))
         (role_of (result_speaker (TranscriptResult ''Let me explain'' 3 True)))
         (result_is_final (TranscriptResult ''Let me explain'' 3 True))"
    by blast+
  then have 2: "map_option speaker
     (pending_interim (add_transcript ''Let me explain'' 3 False 1000000 1000000 (new_buffer 180 5)))
     = Some ''salesperson''"
    and 3: "transcript_message (TranscriptResult ''Let me explain'' 3 True)
     = TranscriptMessage ''Let me explain'' ''salesperson'' True"
    by (simp_all add: operator)
  from 1 2 3 show ?thesis by blast
qed

section \<open>Parsing the reply\<close>

lemma parse_suggestions_at_most_three: "length (parse_suggestions response) \<le> 3"
  by (simp add: parse_suggestions_def)

lemma parse_lines_longer_than_five: "\<forall>s \<in> set (parse_lines ls). 5 < length s"
  by (induction ls) (auto simp: Let_def split: option.splits)

lemma parse_suggestions_longer_than_five: "\<forall>s \<in> set (parse_suggestions response). 5 < length s"
  using parse_lines_longer_than_five by (auto simp: parse_suggestions_def dest: in_set_takeD)

lemma parse_suggestions_example:
  "parse_suggestions ''1. Ask about ROI\<newline>2. Offer a pilot\<newline>Notes: ignore this''
     = [''Ask about ROI'', ''Offer a pilot'']"
  by code_simp

lemma digit_not_space: "isdigit c \<Longrightarrow> \<not> isspace c"
  by (auto simp: isdigit_def isspace_def)

text \<open>A line whose number is followed by a space is not matched, whatever comes after.\<close>

lemma match_numbered_space_after_number:
  assumes "ds \<noteq> []" and "\<forall>c \<in> set ds. isdigit c"
  shows "match_numbered (ds @ CHR '' '' # rest) = None"
proof -
  from assms obtain d ds' where ds: "ds = d # ds'" by (cases ds) auto
  have no_space: "dropWhile isspace (ds @ CHR '' '' # rest) = ds @ CHR '' '' # rest"
    using assms(2) by (simp add: ds digit_not_space)
  have not_digit: "\<not> isdigit (CHR '' '')" by (simp add: isdigit_def)
  have digits: "takeWhile isdigit (ds @ CHR '' '' # rest) = ds"
    using assms(2) not_digit by (simp add: takeWhile_append2)
  have after: "dropWhile isdigit (ds @ CHR '' '' # rest) = CHR '' '' # rest"
    using assms(2) not_digit by (simp add: dropWhile_append2)
  show ?thesis
    unfolding match_numbered_def Let_def no_space digits after
    using assms(1) by simp
qed

text \<open>
  C3. The comment in \<open>_parse_suggestions\<close> and the claim both name \<open>1 -\<close> among the
  markers. The pattern wants the marker character right after the digits, so a line
  that begins \<open>1 -\<close> is dropped, while \<open>1.\<close>, \<open>1)\<close>, \<open>1:\<close> and \<open>1-\<close> are kept.
\<close>

theorem parse_suggestions_drops_spaced_dash:
  "parse_suggestions ''1 - Ask about ROI'' = []
   \<and> parse_suggestions ''1. Ask about ROI'' = [''Ask about ROI'']
   \<and> parse_suggestions ''1) Ask about ROI'' = [''Ask about ROI'']
   \<and> parse_suggestions ''1: Ask about ROI'' = [''Ask about ROI'']
   \<and> parse_suggestions ''1- Ask about ROI'' = [''Ask about ROI'']"
  by code_simp


section \<open>The generator does not raise\<close>

lemma generate_sync_returns:
  "\<exists>items. generate_sync create conversation_context last_statement = Inr items"
  by (auto simp: generate_sync_def Let_def split: sum.splits py_exception.splits)

lemma generate_sync_on_failure:
  assumes "request_suggestions create (get_system_prompt conversation_context last_statement) = Inl e"
  shows "generate_sync create conversation_context last_statement = Inr []"
  using assms by (auto simp: generate_sync_def Let_def split: py_exception.splits)

text \<open>
  C6. Whatever the collaborator does, \<open>generate_sync\<close> returns a batch and raises
  nothing. The batch is empty when the call raises, when the reply has no content,
  when its first block has no text, and when the text parses to nothing.
\<close>

theorem generate_sync_never_raises:
  "(\<exists>items. generate_sync create conversation_context last_statement = Inr items)
   \<and> (\<forall>e. create (get_system_prompt conversation_context last_statement) = Inl e \<longrightarrow>
          generate_sync create conversation_context last_statement = Inr [])
   \<and> (create (get_system_prompt conversation_context last_statement) = Inr [] \<longrightarrow>
          generate_sync create conversation_context last_statement = Inr [])
   \<and> (\<forall>blocks. create (get_system_prompt conversation_context last_statement)
                   = Inr (OtherBlock # blocks) \<longrightarrow>
          generate_sync create conversation_context last_statement = Inr [])
   \<and> (\<forall>raw blocks. create (get_system_prompt conversation_context last_statement)
                       = Inr (TextBlock raw # blocks) \<and> parse_suggestions raw = [] \<longrightarrow>
          generate_sync create conversation_context last_statement = Inr [])"
proof (intro conjI allI impI)
  show "\<exists>items. generate_sync create conversation_context last_statement = Inr items"
    by (rule generate_sync_returns)
next
  fix e
  assume "create (get_system_prompt conversation_context last_statement) = Inl e"
  then have "request_suggestions create (get_system_prompt conversation_context last_statement) = Inl e"
    by (simp add: request_suggestions_def)
  then show "generate_sync create conversation_context last_statement = Inr []"
    by (rule generate_sync_on_failure)
next
  assume "create (get_system_prompt conversation_context last_statement) = Inr []"
  then have "request_suggestions create (get_system_prompt conversation_context last_statement)
               = Inl IndexError"
    by (simp add: request_suggestions_def)
  then show "generate_sync create conversation_context last_statement = Inr []"
    by (rule generate_sync_on_failure)
next
  fix blocks
  assume "create (get_system_prompt conversation_context last_statement) = Inr (OtherBlock # blocks)"
  then have "request_suggestions create (get_system_prompt conversation_context last_statement)
               = Inl AttributeError"
    by (simp add: request_suggestions_def)
  then show "generate_sync create conversation_context last_statement = Inr []"
    by (rule generate_sync_on_failure)
next
  fix raw blocks
  assume "create (get_system_prompt conversation_context last_statement)
            = Inr (TextBlock raw # blocks) \<and> parse_suggestions raw = []"
  then have "request_suggestions create (get_system_prompt conversation_context last_statement)
               = Inr []"
    by (simp add: request_suggestions_def)
  then show "generate_sync create conversation_context last_statement = Inr []"
    by (simp add: generate_sync_def Let_def)
qed

theorem generate_sync_never_raises_witness:
  "generate_sync (\<lambda>prompt. Inl APIError) ''Prospect: That is too expensive'' ''That is too expensive''
     = Inr []
   \<and> generate_sync (\<lambda>prompt. Inr []) ''Prospect: That is too expensive'' ''That is too expensive''
     = Inr []
   \<and> generate_sync (\<lambda>prompt. Inr [OtherBlock]) ''Prospect: That is too expensive''
       ''That is too expensive'' = Inr []
   \<and> generate_sync (\<lambda>prompt. Inr [TextBlock ''I have no suggestions'']) ''Prospect: That is too expensive''
       ''That is too expensive'' = Inr []"
proof -
  have empty_parse: "parse_suggestions ''I have no suggestions'' = []" by code_simp
  have "generate_sync (\<lambda>prompt. Inl APIError) ''Prospect: That is too expensive''
          ''That is too expensive'' = Inr []"
    using generate_sync_never_raises[of "\<lambda>prompt. Inl APIError"] by blast
  moreover have "generate_sync (\<lambda>prompt. Inr []) ''Prospect: That is too expensive''
          ''That is too expensive'' = Inr []"
    using generate_sync_never_raises[of "\<lambda>prompt. Inr []"] by blast
  moreover have "generate_sync (\<lambda>prompt. Inr [OtherBlock]) ''Prospect: That is too expensive''
          ''That is too expensive'' = Inr []"
    using generate_sync_never_raises[of "\<lambda>prompt. Inr [OtherBlock]"] by blast
  moreover have "generate_sync (\<lambda>prompt. Inr [TextBlock ''I have no suggestions''])
          ''Prospect: That is too expensive'' ''That is too expensive'' = Inr []"
    using generate_sync_never_raises[of "\<lambda>prompt. Inr [TextBlock ''I have no suggestions'']"]
      empty_parse by blast
  ultimately show ?thesis by blast
qed

section \<open>Broadcasting\<close>

lemma send_loop_undisturbed:
  "send_loop send data [] (length live) cs live failed sends =
     (live, failed @ filter (\<lambda>c. send c data \<noteq> Sent) cs,
      sends @ map (\<lambda>c. (c, data, send c data)) cs, None)"
proof (induction cs arbitrary: failed sends)
  case Nil
  then show ?case by simp
next
  case (Cons c cs)
  then show ?case by (cases "send c data") (simp_all add: apply_change_def)
qed

lemma fold_discard: "fold discard failed cs = filter (\<lambda>c. c \<notin> set failed) cs"
proof (induction failed arbitrary: cs)
  case Nil
  then show ?case by simp
next
  case (Cons f failed)
  have "discard f cs = filter (\<lambda>c. c \<noteq> f) cs"
    by (induction cs) (simp_all add: discard_def)
  then show ?case by (simp add: Cons.IH)
qed

text \<open>
  When nothing touches the live set during the call, a broadcast sends once to each
  connection and leaves those whose send returned.
\<close>

lemma broadcast_undisturbed:
  "broadcast dumps send [] msg ws =
     (ws\<lparr>clients := filter (\<lambda>c. send c (dumps msg) = Sent) (clients ws)\<rparr>,
      map (\<lambda>c. (c, dumps msg, send c (dumps msg))) (clients ws), None)"
proof (cases "clients ws = []")
  case True
  then show ?thesis by (simp add: broadcast_def)
next
  case False
  have "filter (\<lambda>c. c \<notin> set (filter (\<lambda>c. send c (dumps msg) \<noteq> Sent) (clients ws))) (clients ws)
          = filter (\<lambda>c. send c (dumps msg) = Sent) (clients ws)"
    by (rule filter_cong) auto
  then show ?thesis
    using False by (simp add: broadcast_def send_loop_undisturbed fold_discard Let_def)
qed

text \<open>
  The first step of the iterator after the set has changed size raises, whatever is
  left to visit.
\<close>

lemma send_loop_raises_on_changed_size:
  assumes "length live \<noteq> used"
  shows "send_loop send data changes used to_visit live failed sends
           = (live, failed, sends, Some RuntimeError)"
  using assms by (cases to_visit) simp_all

text \<open>
  C7. The loop of \<open>broadcast\<close> runs over the live set itself while each send is
  awaited. Take three connections, of which the first has closed: its send raises,
  and while that send is awaited the handler of the third, which has closed too,
  unregisters it. The iterator then raises \<open>RuntimeError\<close> out of \<open>broadcast\<close>:
  the second connection is never sent to, and the first, whose send failed, is still
  in the live set. With the set left alone the same broadcast sends to all three and
  removes the first.
\<close>

theorem broadcast_raises_when_set_changes:
  "broadcast (\<lambda>m. ''{}'')
     (\<lambda>c d. if c = (1::nat) then ConnectionClosed else Sent)
     [Unregistered 3] (StatusMessage True True True) \<lparr> clients = [1, 2, 3] \<rparr>
     = (\<lparr> clients = [1, 2] \<rparr>, [(1, ''{}'', ConnectionClosed)], Some RuntimeError)
   \<and> broadcast (\<lambda>m. ''{}'')
       (\<lambda>c d. if c = (1::nat) then ConnectionClosed else Sent)
       [] (StatusMessage True True True) \<lparr> clients = [1, 2, 3] \<rparr>
     = (\<lparr> clients = [2, 3] \<rparr>,
        [(1, ''{}'', ConnectionClosed), (2, ''{}'', Sent), (3, ''{}'', Sent)], None)"
  by (simp add: broadcast_def apply_change_def discard_def Let_def)


section \<open>After a round\<close>

lemma generate_suggestions_begin_buffer:
  "context_buffer (fst (generate_suggestions_begin a)) = context_buffer a"
  by (simp add: generate_suggestions_begin_def Let_def split: option.splits)

lemma generate_suggestions_finish_buffer:
  "context_buffer (fst (generate_suggestions_finish dumps send changes suggestions now a)) =
     (if suggestions \<noteq> [] then mark_suggestion_sent now (context_buffer a) else context_buffer a)"
  by (simp add: generate_suggestions_finish_def Let_def split: prod.splits)

lemma generate_suggestions_buffer:
  "context_buffer (fst (generate_suggestions dumps send changes create now a)) =
     (case round_batch create a of
        Some (item # items) \<Rightarrow> mark_suggestion_sent now (context_buffer a)
      | _ \<Rightarrow> context_buffer a)"
proof (cases "generate_suggestions_begin a")
  case (Pair a' request)
  have buffer: "context_buffer a' = context_buffer a"
    using generate_suggestions_begin_buffer[of a] Pair by simp
  show ?thesis
  proof (cases request)
    case None
    then show ?thesis using Pair buffer
      by (simp add: generate_suggestions_def round_batch_def)
  next
    case (Some cl)
    obtain ctx last_statement where cl: "cl = (ctx, last_statement)" by (cases cl) auto
    show ?thesis
    proof (cases "generate_sync create ctx last_statement")
      case (Inl e)
      then show ?thesis using Pair Some cl buffer
        by (simp add: generate_suggestions_def round_batch_def)
    next
      case (Inr suggestions)
      then show ?thesis using Pair Some cl buffer
        by (cases suggestions)
           (simp_all add: generate_suggestions_def round_batch_def generate_suggestions_finish_buffer)
    qed
  qed
qed

text \<open>
  C5. When the collaborator has answered, the rest of the round sets
  \<open>last_suggestion_time\<close> to the clock exactly when the batch has an item, and then
  broadcasts the batch; with an empty batch the time, the buffer and the hub are as
  before. So it is for the whole round: the time is set when the round's batch has
  an item and is unchanged otherwise.
\<close>

theorem mark_iff_batch_not_empty:
  "last_suggestion_time
     (context_buffer (fst (generate_suggestions_finish dumps send changes suggestions now a)))
     = (if suggestions \<noteq> [] then Some now else last_suggestion_time (context_buffer a))
   \<and> (websocket_server (fst (generate_suggestions_finish dumps send changes suggestions now a)),
       snd (generate_suggestions_finish dumps send changes suggestions now a))
     = (if suggestions \<noteq> []
        then broadcast dumps send changes (SuggestionsMessage suggestions) (websocket_server a)
        else (websocket_server a, [], None))
   \<and> (suggestions = [] \<longrightarrow>
        context_buffer (fst (generate_suggestions_finish dumps send changes suggestions now a))
          = context_buffer a)
   \<and> last_suggestion_time (context_buffer (fst (generate_suggestions dumps send changes create now a)))
     = (case round_batch create a of
          Some (item # items) \<Rightarrow> Some now
        | _ \<Rightarrow> last_suggestion_time (context_buffer a))
   \<and> (round_batch create a = Some [] \<longrightarrow>
        context_buffer (fst (generate_suggestions dumps send changes create now a)) = context_buffer a)"
proof (intro conjI impI)
  show "last_suggestion_time
     (context_buffer (fst (generate_suggestions_finish dumps send changes suggestions now a)))
     = (if suggestions \<noteq> [] then Some now else last_suggestion_time (context_buffer a))"
    by (simp add: generate_suggestions_finish_buffer mark_suggestion_sent_def)
  show "(websocket_server (fst (generate_suggestions_finish dumps send changes suggestions now a)),
       snd (generate_suggestions_finish dumps send changes suggestions now a))
     = (if suggestions \<noteq> []
        then broadcast dumps send changes (SuggestionsMessage suggestions) (websocket_server a)
        else (websocket_server a, [], None))"
    by (simp add: generate_suggestions_finish_def broadcast_suggestions_def Let_def
        split: prod.splits)
  show "context_buffer (fst (generate_suggestions_finish dumps send changes suggestions now a))
          = context_buffer a" if "suggestions = []"
    using that by (simp add: generate_suggestions_finish_buffer)
  show "last_suggestion_time (context_buffer (fst (generate_suggestions dumps send changes create now a)))
     = (case round_batch create a of
          Some (item # items) \<Rightarrow> Some now
        | _ \<Rightarrow> last_suggestion_time (context_buffer a))"
    by (simp add: generate_suggestions_buffer mark_suggestion_sent_def
        split: option.splits list.splits)
  show "context_buffer (fst (generate_suggestions dumps send changes create now a)) = context_buffer a"
    if "round_batch create a = Some []"
    using that by (simp add: generate_suggestions_buffer)
qed

theorem mark_iff_batch_not_empty_witness:
  "round_batch (\<lambda>prompt. Inl APIError)
     \<lparr> context_buffer =
         ingest_all [(TranscriptResult ''That is too expensive for us'' 0 True, 0, 0)]
           (new_buffer 180 5),
       websocket_server = \<lparr> clients = [1, 2 :: nat] \<rparr>,
       generation_lock = False \<rparr> = Some []
   \<and> context_buffer
       (fst (generate_suggestions (\<lambda>m. ''{}'') (\<lambda>c d. Sent) [] (\<lambda>prompt. Inl APIError) 1000000
          \<lparr> context_buffer =
              ingest_all [(TranscriptResult ''That is too expensive for us'' 0 True, 0, 0)]
                (new_buffer 180 5),
            websocket_server = \<lparr> clients = [1, 2 :: nat] \<rparr>,
            generation_lock = False \<rparr>))
     = ingest_all [(TranscriptResult ''That is too expensive for us'' 0 True, 0, 0)]
         (new_buffer 180 5)
   \<and> last_suggestion_time
       (context_buffer
          (fst (generate_suggestions (\<lambda>m. ''{}'') (\<lambda>c d. Sent) []
                  (\<lambda>prompt. Inr [TextBlock ''1. Ask about ROI'']) 1000000
          \<lparr> context_buffer =
              ingest_all [(TranscriptResult ''That is too expensive for us'' 0 True, 0, 0)]
                (new_buffer 180 5),
            websocket_server = \<lparr> clients = [1, 2 :: nat] \<rparr>,
            generation_lock = False \<rparr>)))
     = Some 1000000"
proof -
  let ?b = "ingest_all [(TranscriptResult ''That is too expensive for us'' 0 True, 0, 0)]
              (new_buffer 180 5)"
  let ?a = "\<lparr> context_buffer = ?b, websocket_server = \<lparr> clients = [1, 2 :: nat] \<rparr>,
              generation_lock = False \<rparr>"
  have failed: "round_batch (\<lambda>prompt. Inl APIError) ?a = Some []" by code_simp
  have answered: "round_batch (\<lambda>prompt. Inr [TextBlock ''1. Ask about ROI'']) ?a
                    = Some [''Ask about ROI'']" by code_simp
  from mark_iff_batch_not_empty[where a = ?a and create = "\<lambda>prompt. Inl APIError"
      and dumps = "\<lambda>m. ''{}''" and send = "\<lambda>c d. Sent" and changes = "[]"
      and now = 1000000]
    failed
  have "context_buffer (fst (generate_suggestions (\<lambda>m. ''{}'') (\<lambda>c d. Sent) []
          (\<lambda>prompt. Inl APIError) 1000000 ?a)) = context_buffer ?a"
    by blast
  then have 1: "context_buffer (fst (generate_suggestions (\<lambda>m. ''{}'') (\<lambda>c d. Sent) []
          (\<lambda>prompt. Inl APIError) 1000000 ?a)) = ?b"
    by simp
  from mark_iff_batch_not_empty[where a = ?a
      and create = "\<lambda>prompt. Inr [TextBlock ''1. Ask about ROI'']"
      and dumps = "\<lambda>m. ''{}''" and send = "\<lambda>c d. Sent" and changes = "[]"
      and now = 1000000]
  have "last_suggestion_time (context_buffer (fst (generate_suggestions (\<lambda>m. ''{}'') (\<lambda>c d. Sent)
          [] (\<lambda>prompt. Inr [TextBlock ''1. Ask about ROI'']) 1000000 ?a)))
     = (case round_batch (\<lambda>prompt. Inr [TextBlock ''1. Ask about ROI'']) ?a of
          Some (item # items) \<Rightarrow> Some 1000000
        | _ \<Rightarrow> last_suggestion_time (context_buffer ?a))"
    by blast
  then have 2: "last_suggestion_time (context_buffer (fst (generate_suggestions (\<lambda>m. ''{}'')
          (\<lambda>c d. Sent) [] (\<lambda>prompt. Inr [TextBlock ''1. Ask about ROI'']) 1000000 ?a)))
     = Some 1000000"
    by (simp only: answered option.case list.case)
  from failed 1 2 show ?thesis by blast
qed


section \<open>One request at a time\<close>

lemma single_flight_started: "single_flight (started a)"
  by (simp add: single_flight_def started_def)

lemma generate_suggestions_begin_cases:
  "generate_suggestions_begin a = (a, None) \<and> generation_lock a
   \<or> (\<exists>a'. generate_suggestions_begin a = (a', None) \<and> \<not> generation_lock a \<and> \<not> generation_lock a')
   \<or> (\<exists>a' request. generate_suggestions_begin a = (a', Some request)
         \<and> \<not> generation_lock a \<and> generation_lock a')"
  by (auto simp: generate_suggestions_begin_def Let_def split: option.splits)

lemma single_flight_enter_generation:
  assumes "single_flight s"
  shows "single_flight (enter_generation s)"
  using assms generate_suggestions_begin_cases[of "assistant s"]
  by (auto simp: single_flight_def enter_generation_def)

lemma enter_generation_while_locked:
  assumes "generation_lock (assistant s)"
  shows "enter_generation s = s"
  using assms by (simp add: enter_generation_def generate_suggestions_begin_def)

lemma generate_suggestions_finish_unlocks:
  "\<not> generation_lock (fst (generate_suggestions_finish dumps send changes suggestions now a))"
  by (simp add: generate_suggestions_finish_def Let_def split: prod.splits)

lemma single_flight_step:
  assumes "single_flight s"
  shows "single_flight (step dumps send ev s)"
proof (cases ev)
  case (Fragment result created now)
  then show ?thesis using assms by (simp add: single_flight_def on_transcript_def)
next
  case (Check result now)
  then show ?thesis using assms single_flight_enter_generation[OF assms]
    by (simp split: sum.splits bool.splits)
next
  case Trigger
  then show ?thesis using single_flight_enter_generation[OF assms] by simp
next
  case (Answer suggestions now changes)
  show ?thesis
  proof (cases "outstanding s")
    case Nil
    then show ?thesis using Answer assms by simp
  next
    case (Cons request waiting)
    then have "waiting = []" using assms by (simp add: single_flight_def)
    then show ?thesis using Answer Cons by (simp add: single_flight_def)
  qed
next
  case ClearBuffer
  then show ?thesis using assms by (simp add: single_flight_def)
qed

lemma single_flight_run:
  assumes "single_flight s"
  shows "single_flight (run dumps send events s)"
  using assms unfolding run_def
  by (induction events arbitrary: s) (simp_all add: single_flight_step)

text \<open>
  C2. Whatever events have come since the assistant started, at most one request to
  the collaborator is outstanding. While one is, entering \<open>_generate_suggestions\<close>,
  directly or from \<open>_process_transcript\<close>, changes nothing: no second request is made
  and nothing is kept for later. When the answer comes, no request is outstanding:
  the end of a round starts no other.
\<close>

theorem at_most_one_outstanding:
  "length (outstanding (run dumps send events (started a))) \<le> 1
   \<and> (outstanding (run dumps send events (started a)) \<noteq> [] \<longrightarrow>
        step dumps send Trigger (run dumps send events (started a))
          = run dumps send events (started a)
        \<and> (\<forall>result now. step dumps send (Check result now) (run dumps send events (started a))
              = run dumps send events (started a)))
   \<and> (\<forall>suggestions now changes.
        outstanding
          (step dumps send (Answer suggestions now changes) (run dumps send events (started a)))
          = [])"
proof -
  let ?s = "run dumps send events (started a)"
  have inv: "single_flight ?s"
    using single_flight_started by (rule single_flight_run)
  have 1: "length (outstanding ?s) \<le> 1" using inv by (simp add: single_flight_def)
  have locked: "generation_lock (assistant ?s)" if "outstanding ?s \<noteq> []"
    using inv that by (simp add: single_flight_def)
  have 2: "step dumps send Trigger ?s = ?s" if "outstanding ?s \<noteq> []"
    using enter_generation_while_locked[OF locked[OF that]] by simp
  have 3: "step dumps send (Check result now) ?s = ?s" if "outstanding ?s \<noteq> []" for result now
    using enter_generation_while_locked[OF locked[OF that]]
    by (simp split: sum.splits bool.splits)
  have 4: "outstanding (step dumps send (Answer suggestions now changes) ?s) = []"
    for suggestions now changes
  proof (cases "outstanding ?s")
    case Nil
    then show ?thesis by simp
  next
    case (Cons request waiting)
    then have "waiting = []" using 1 by simp
    then show ?thesis using Cons by simp
  qed
  from 1 2 3 4 show ?thesis by blast
qed

theorem at_most_one_outstanding_witness:
  "outstanding
     (run (\<lambda>m. ''{}'') (\<lambda>c d. Sent)
        [Fragment (TranscriptResult ''That is too expensive for us'' 0 True) 0 0,
         Check (TranscriptResult ''That is too expensive for us'' 0 True) 1]
        (started \<lparr> context_buffer = new_buffer 180 5,
                   websocket_server = \<lparr> clients = [1, 2 :: nat] \<rparr>,
                   generation_lock = False \<rparr>))
     = [(''Prospect: That is too expensive for us'', ''That is too expensive for us'')]
   \<and> step (\<lambda>m. ''{}'') (\<lambda>c d. Sent) Trigger
       (run (\<lambda>m. ''{}'') (\<lambda>c d. Sent)
          [Fragment (TranscriptResult ''That is too expensive for us'' 0 True) 0 0,
           Check (TranscriptResult ''That is too expensive for us'' 0 True) 1]
          (started \<lparr> context_buffer = new_buffer 180 5,
                     websocket_server = \<lparr> clients = [1, 2 :: nat] \<rparr>,
                     generation_lock = False \<rparr>))
     = run (\<lambda>m. ''{}'') (\<lambda>c d. Sent)
          [Fragment (TranscriptResult ''That is too expensive for us'' 0 True) 0 0,
           Check (TranscriptResult ''That is too expensive for us'' 0 True) 1]
          (started \<lparr> context_buffer = new_buffer 180 5,
                     websocket_server = \<lparr> clients = [1, 2 :: nat] \<rparr>,
                     generation_lock = False \<rparr>)"
proof -
  let ?s = "run (\<lambda>m. ''{}'') (\<lambda>c d. Sent)
        [Fragment (TranscriptResult ''That is too expensive for us'' 0 True) 0 0,
         Check (TranscriptResult ''That is too expensive for us'' 0 True) 1]
        (started \<lparr> context_buffer = new_buffer 180 5,
                   websocket_server = \<lparr> clients = [1, 2 :: nat] \<rparr>,
                   generation_lock = False \<rparr>)"
  have waiting: "outstanding ?s
     = [(''Prospect: That is too expensive for us'', ''That is too expensive for us'')]"
    by code_simp
  then have "outstanding ?s \<noteq> []" by simp
  with at_most_one_outstanding[of "\<lambda>m. ''{}''" "\<lambda>c d. Sent"
      "[Fragment (TranscriptResult ''That is too expensive for us'' 0 True) 0 0,
        Check (TranscriptResult ''That is too expensive for us'' 0 True) 1]"
      "\<lparr> context_buffer = new_buffer 180 5,
         websocket_server = \<lparr> clients = [1, 2 :: nat] \<rparr>,
         generation_lock = False \<rparr>"]
  have "step (\<lambda>m. ''{}'') (\<lambda>c d. Sent) Trigger ?s = ?s" by blast
  with waiting show ?thesis by blast
qed

end
